theory Spec2Isabelle
  imports Main "HOL-Library.AList"
begin

section \<open>Data model\<close>

text \<open>
  The service keeps four process-wide dictionaries (\<^verbatim>\<open>persons\<close>, \<^verbatim>\<open>addresses\<close>,
  \<^verbatim>\<open>courses\<close>, \<^verbatim>\<open>registrations\<close>), each keyed by a UUID.  A Python dictionary
  iterates in insertion order and assigning to an existing key keeps the key's position,
  so a dictionary is an association list with distinct keys, \<open>d[k]\<close> is \<open>map_of d k\<close>
  and \<open>d[k] = v\<close> is \<open>AList.update k v d\<close> (replace in place, or append at the end).

  The values that the default factories \<^verbatim>\<open>uuid4\<close> and \<^verbatim>\<open>datetime.utcnow\<close> produce
  are inputs of the model (\<open>defaults\<close>): the handler does not choose them.
\<close>

type_synonym uuid = nat
type_synonym datetime = nat

record defaults =
  gen_id :: uuid
  gen_created_at :: datetime
  gen_updated_at :: datetime

datatype error =
    HTTPException (status_code: nat) (detail: string)
  | ValidationError
  | KeyError

text \<open>
  A field of a partial-update model (\<^verbatim>\<open>Optional[T] = None\<close>) is absent from the request
  body, explicitly \<^verbatim>\<open>null\<close>, or a value.  \<^verbatim>\<open>model_dump(exclude_unset=True)\<close> keeps
  the last two, so a \<^verbatim>\<open>null\<close> overwrites the stored value with \<^verbatim>\<open>None\<close>, and
  rebuilding the read model (whose fields are not optional) then raises.
\<close>

datatype 'a field = Unset | Null | Given 'a

fun overlay :: "'a field \<Rightarrow> 'a \<Rightarrow> 'a option" where
  "overlay Unset old = Some old"
| "overlay Null old = None"
| "overlay (Given v) old = Some v"

text \<open>\<^verbatim>\<open>models/course.py\<close>: \<^verbatim>\<open>CourseCreate\<close> adds no field to \<^verbatim>\<open>CourseBase\<close>.\<close>

record course_base =
  coursenumber :: string
  instructor :: string
  time :: string
  location :: string
  capacity :: int
  enrollment :: int

record course_read = course_base +
  c_id :: uuid
  c_created_at :: datetime
  c_updated_at :: datetime

record course_update =
  u_coursenumber :: "string field"
  u_instructor :: "string field"
  u_time :: "string field"
  u_location :: "string field"
  u_capacity :: "int field"
  u_enrollment :: "int field"

text \<open>\<^verbatim>\<open>models/registration.py\<close>: \<^verbatim>\<open>RegistrationCreate\<close> adds no field to
  \<^verbatim>\<open>RegistrationBase\<close>; \<^verbatim>\<open>status\<close> is a free string.\<close>

record registration_base =
  person_id :: uuid
  course_id :: uuid

record registration_read = registration_base +
  r_id :: uuid
  status :: string
  r_created_at :: datetime
  r_updated_at :: datetime

record registration_update =
  u_status :: "string field"

text \<open>
  Modelled from the spec: \<^verbatim>\<open>models/person.py\<close> and \<^verbatim>\<open>models/address.py\<close> are not
  among the sources.  A person is "created via a create request (id generated
  server-side); mutated by partial update (only supplied fields change)".  The fields
  other than the id are a type parameter, and a partial update is the function it
  induces on them.  For addresses \<^verbatim>\<open>main.py\<close> itself reads \<^verbatim>\<open>address.id\<close> from the
  creation payload, so \<^verbatim>\<open>AddressCreate\<close> carries an id.
\<close>

record 'p person_read =
  p_id :: uuid
  p_fields :: 'p

record 'a address_create =
  ac_id :: uuid
  ac_fields :: 'a

record 'a address_read =
  a_id :: uuid
  a_fields :: 'a

record ('p, 'a) store =
  persons :: "(uuid \<times> 'p person_read) list"
  addresses :: "(uuid \<times> 'a address_read) list"
  courses :: "(uuid \<times> course_read) list"
  registrations :: "(uuid \<times> registration_read) list"

definition init :: "('p, 'a) store" where
  "init = \<lparr>persons = [], addresses = [], courses = [], registrations = []\<rparr>"

text \<open>Python's \<^verbatim>\<open>k in d\<close>.\<close>

definition contains :: "('k \<times> 'v) list \<Rightarrow> 'k \<Rightarrow> bool" where
  "contains d k = (map_of d k \<noteq> None)"

section \<open>Python values needed by the course filter\<close>

text \<open>
  \<^verbatim>\<open>str(p.enrollment) == enrollment\<close> compares a \<^verbatim>\<open>str\<close> with an \<^verbatim>\<open>int\<close>.
  Python's \<^verbatim>\<open>==\<close> between the two types is \<^verbatim>\<open>False\<close>.
\<close>

datatype pyval = PyStr string | PyInt int

fun py_eq :: "pyval \<Rightarrow> pyval \<Rightarrow> bool" where
  "py_eq (PyStr a) (PyStr b) = (a = b)"
| "py_eq (PyInt a) (PyInt b) = (a = b)"
| "py_eq _ _ = False"

definition digit_char :: "nat \<Rightarrow> char" where
  "digit_char n = ''0123456789'' ! n"

fun str_nat :: "nat \<Rightarrow> string" where
  "str_nat n = (if n < 10 then [digit_char n] else str_nat (n div 10) @ [digit_char (n mod 10)])"

definition str_int :: "int \<Rightarrow> string" where
  "str_int i = (if i < 0 then CHR ''-'' # str_nat (nat (- i)) else str_nat (nat i))"

section \<open>Address and person endpoints\<close>

definition create_address ::
  "'a address_create \<Rightarrow> ('p, 'a) store \<Rightarrow> (error + 'a address_read) \<times> ('p, 'a) store" where
  "create_address address s =
     (if contains (addresses s) (ac_id address)
      then (Inl (HTTPException 400 ''Address with this ID already exists''), s)
      else
        let address_read = \<lparr>a_id = ac_id address, a_fields = ac_fields address\<rparr>
        in (Inr address_read,
            s\<lparr>addresses := AList.update (ac_id address) address_read (addresses s)\<rparr>))"

definition update_address ::
  "uuid \<Rightarrow> ('a \<Rightarrow> 'a) \<Rightarrow> ('p, 'a) store \<Rightarrow> (error + 'a address_read) \<times> ('p, 'a) store" where
  "update_address address_id upd s =
     (case map_of (addresses s) address_id of
        None \<Rightarrow> (Inl (HTTPException 404 ''Address not found''), s)
      | Some stored \<Rightarrow>
          let address_read = stored\<lparr>a_fields := upd (a_fields stored)\<rparr>
          in (Inr address_read,
              s\<lparr>addresses := AList.update address_id address_read (addresses s)\<rparr>))"

definition create_person ::
  "defaults \<Rightarrow> 'p \<Rightarrow> ('p, 'a) store \<Rightarrow> (error + 'p person_read) \<times> ('p, 'a) store" where
  "create_person g person s =
     (let person_read = \<lparr>p_id = gen_id g, p_fields = person\<rparr>
      in (Inr person_read,
          s\<lparr>persons := AList.update (p_id person_read) person_read (persons s)\<rparr>))"

definition update_person ::
  "uuid \<Rightarrow> ('p \<Rightarrow> 'p) \<Rightarrow> ('p, 'a) store \<Rightarrow> (error + 'p person_read) \<times> ('p, 'a) store" where
  "update_person pid upd s =
     (case map_of (persons s) pid of
        None \<Rightarrow> (Inl (HTTPException 404 ''Person not found''), s)
      | Some stored \<Rightarrow>
          let person_read = stored\<lparr>p_fields := upd (p_fields stored)\<rparr>
          in (Inr person_read,
              s\<lparr>persons := AList.update pid person_read (persons s)\<rparr>))"

section \<open>Course endpoints\<close>

definition create_course ::
  "defaults \<Rightarrow> course_base \<Rightarrow> ('p, 'a) store \<Rightarrow> (error + course_read) \<times> ('p, 'a) store" where
  "create_course g course s =
     (let course_read =
            \<lparr>coursenumber = coursenumber course, instructor = instructor course,
             time = time course, location = location course,
             capacity = capacity course, enrollment = enrollment course,
             c_id = gen_id g, c_created_at = gen_created_at g,
             c_updated_at = gen_updated_at g\<rparr>
      in (Inr course_read,
          s\<lparr>courses := AList.update (c_id course_read) course_read (courses s)\<rparr>))"

definition list_courses ::
  "string option \<Rightarrow> string option \<Rightarrow> string option \<Rightarrow> string option \<Rightarrow> int option \<Rightarrow>
   int option \<Rightarrow> ('p, 'a) store \<Rightarrow> course_read list" where
  "list_courses coursenumber_q instructor_q time_q location_q capacity_q enrollment_q s =
     (let results = map snd (courses s);
          results = (case coursenumber_q of None \<Rightarrow> results
                     | Some v \<Rightarrow> filter (\<lambda>p. coursenumber p = v) results);
          results = (case instructor_q of None \<Rightarrow> results
                     | Some v \<Rightarrow> filter (\<lambda>p. instructor p = v) results);
          results = (case time_q of None \<Rightarrow> results
                     | Some v \<Rightarrow> filter (\<lambda>p. time p = v) results);
          results = (case location_q of None \<Rightarrow> results
                     | Some v \<Rightarrow> filter (\<lambda>p. location p = v) results);
          results = (case capacity_q of None \<Rightarrow> results
                     | Some v \<Rightarrow> filter (\<lambda>p. capacity p = v) results);
          results = (case enrollment_q of None \<Rightarrow> results
                     | Some v \<Rightarrow>
                         filter (\<lambda>p. py_eq (PyStr (str_int (enrollment p))) (PyInt v)) results)
      in results)"

text \<open>
  \<^verbatim>\<open>CourseRead(**stored)\<close> after the overlay: every field of \<^verbatim>\<open>CourseRead\<close> is
  required, so a \<^verbatim>\<open>null\<close> in the payload makes the constructor raise.
\<close>

definition merge_course :: "course_read \<Rightarrow> course_update \<Rightarrow> datetime \<Rightarrow> course_read option" where
  "merge_course stored upd now =
     (case (overlay (u_coursenumber upd) (coursenumber stored),
            overlay (u_instructor upd) (instructor stored),
            overlay (u_time upd) (time stored),
            overlay (u_location upd) (location stored),
            overlay (u_capacity upd) (capacity stored),
            overlay (u_enrollment upd) (enrollment stored)) of
        (Some cn, Some ins, Some tm, Some loc, Some cap, Some enr) \<Rightarrow>
          Some \<lparr>coursenumber = cn, instructor = ins, time = tm, location = loc,
                capacity = cap, enrollment = enr,
                c_id = c_id stored, c_created_at = c_created_at stored, c_updated_at = now\<rparr>
      | _ \<Rightarrow> None)"

definition update_course ::
  "uuid \<Rightarrow> course_update \<Rightarrow> datetime \<Rightarrow> ('p, 'a) store \<Rightarrow>
   (error + course_read) \<times> ('p, 'a) store" where
  "update_course cid upd now s =
     (case map_of (courses s) cid of
        None \<Rightarrow> (Inl (HTTPException 404 ''Course not found''), s)
      | Some stored \<Rightarrow>
          (case merge_course stored upd now of
             None \<Rightarrow> (Inl ValidationError, s)
           | Some course_read \<Rightarrow>
               (Inr course_read, s\<lparr>courses := AList.update cid course_read (courses s)\<rparr>)))"

section \<open>Registration workflow\<close>

text \<open>
  \<^verbatim>\<open>course = courses[reg.course_id]\<close> is the stored object, so
  \<^verbatim>\<open>course.enrollment += 1\<close> changes the entry under \<^verbatim>\<open>reg.course_id\<close> in place;
  \<^verbatim>\<open>courses[course.id] = course\<close> then stores the same object under its own id.
  Both writes are in the model.  Distinct entries are distinct objects.
\<close>

definition create_registration ::
  "defaults \<Rightarrow> registration_base \<Rightarrow> ('p, 'a) store \<Rightarrow>
   (error + registration_read) \<times> ('p, 'a) store" where
  "create_registration g reg s =
     (if \<not> contains (persons s) (person_id reg)
      then (Inl (HTTPException 404 ''Person not found''), s)
      else
        (case map_of (courses s) (course_id reg) of
           None \<Rightarrow> (Inl (HTTPException 404 ''Course not found''), s)
         | Some course0 \<Rightarrow>
             let (status', course) =
                   (if enrollment course0 < capacity course0
                    then (''enrolled'', course0\<lparr>enrollment := enrollment course0 + 1\<rparr>)
                    else (''waitlisted'', course0));
                 registration_read =
                   \<lparr>person_id = person_id reg, course_id = course_id reg,
                    r_id = gen_id g, status = status',
                    r_created_at = gen_created_at g, r_updated_at = gen_updated_at g\<rparr>
             in (Inr registration_read,
                 s\<lparr>registrations :=
                      AList.update (r_id registration_read) registration_read (registrations s),
                    courses :=
                      AList.update (c_id course) course
                        (AList.update (course_id reg) course (courses s))\<rparr>)))"

text \<open>
  The promotion scan is \<^verbatim>\<open>next(r for r in registrations.values() if ...)\<close>: the first
  entry in dictionary order.  The entry found is changed in place (under the key it is
  stored at) and then stored again under its own id.
\<close>

definition first_waitlisted ::
  "uuid \<Rightarrow> (uuid \<times> registration_read) list \<Rightarrow> (uuid \<times> registration_read) option" where
  "first_waitlisted cid regs =
     find (\<lambda>(k, r). course_id r = cid \<and> status r = ''waitlisted'') regs"

definition update_registration ::
  "uuid \<Rightarrow> registration_update \<Rightarrow> ('p, 'a) store \<Rightarrow>
   (error + registration_read) \<times> ('p, 'a) store" where
  "update_registration registration_id upd s =
     (case map_of (registrations s) registration_id of
        None \<Rightarrow> (Inl (HTTPException 404 ''Registration not found''), s)
      | Some stored \<Rightarrow>
          (case overlay (u_status upd) (status stored) of
             None \<Rightarrow> (Inl ValidationError, s)
           | Some new_status \<Rightarrow>
               let registration = stored\<lparr>status := new_status\<rparr> in
               (case map_of (courses s) (course_id registration) of
                  None \<Rightarrow> (Inl KeyError, s)
                | Some course0 \<Rightarrow>
                    if status stored = ''enrolled'' \<and> new_status = ''dropped''
                    then
                      let course1 = course0\<lparr>enrollment := enrollment course0 - 1\<rparr>;
                          courses1 = AList.update (course_id registration) course1 (courses s)
                      in (case first_waitlisted (c_id course1) (registrations s) of
                            None \<Rightarrow>
                              (Inr registration,
                               s\<lparr>registrations :=
                                    AList.update registration_id registration (registrations s),
                                  courses := AList.update (c_id course1) course1 courses1\<rparr>)
                          | Some (k, waitlisted0) \<Rightarrow>
                              let waitlisted = waitlisted0\<lparr>status := ''enrolled''\<rparr>;
                                  course2 = course1\<lparr>enrollment := enrollment course1 + 1\<rparr>;
                                  courses2 =
                                    AList.update (course_id registration) course2 courses1;
                                  regs1 = AList.update k waitlisted (registrations s);
                                  regs2 = AList.update (r_id waitlisted) waitlisted regs1
                              in (Inr registration,
                                  s\<lparr>registrations :=
                                       AList.update registration_id registration regs2,
                                     courses := AList.update (c_id course2) course2 courses2\<rparr>))
                    else
                      (Inr registration,
                       s\<lparr>registrations :=
                            AList.update registration_id registration (registrations s),
                          courses := AList.update (c_id course0) course0 (courses s)\<rparr>))))"

section \<open>Requests and reachable states\<close>

text \<open>
  A request is one call of a handler with its inputs, including the values the default
  factories produced for it.  \<open>handle\<close> keeps the store the handler leaves behind,
  whether it returned or raised; \<open>run\<close> serves a list of requests in order.  The
  reachable stores are those obtained from the empty dictionaries by any requests with
  any inputs: generated ids are not assumed to be new, so every store the service can
  be in is reachable.
\<close>

datatype ('p, 'a) request =
    PostAddress "'a address_create"
  | PatchAddress uuid "'a \<Rightarrow> 'a"
  | PostPerson defaults 'p
  | PatchPerson uuid "'p \<Rightarrow> 'p"
  | PostCourse defaults course_base
  | PatchCourse uuid course_update datetime
  | PostRegistration defaults registration_base
  | PatchRegistration uuid registration_update

fun handle :: "('p, 'a) request \<Rightarrow> ('p, 'a) store \<Rightarrow> ('p, 'a) store" where
  "handle (PostAddress a) s = snd (create_address a s)"
| "handle (PatchAddress k u) s = snd (update_address k u s)"
| "handle (PostPerson g p) s = snd (create_person g p s)"
| "handle (PatchPerson k u) s = snd (update_person k u s)"
| "handle (PostCourse g c) s = snd (create_course g c s)"
| "handle (PatchCourse k u now) s = snd (update_course k u now s)"
| "handle (PostRegistration g r) s = snd (create_registration g r s)"
| "handle (PatchRegistration k u) s = snd (update_registration k u s)"

fun run :: "('p, 'a) request list \<Rightarrow> ('p, 'a) store \<Rightarrow> ('p, 'a) store" where
  "run [] s = s"
| "run (r # rs) s = run rs (handle r s)"

inductive reachable :: "('p, 'a) store \<Rightarrow> bool" where
  reachable_init: "reachable init"
| reachable_step: "reachable s \<Longrightarrow> reachable (handle r s)"

section \<open>Auxiliary notions for the properties\<close>

text \<open>Creating registrations one after the other, keeping every response.\<close>

fun create_registrations ::
  "(defaults \<times> registration_base) list \<Rightarrow> ('p, 'a) store \<Rightarrow>
   (error + registration_read) list \<times> ('p, 'a) store" where
  "create_registrations [] s = ([], s)"
| "create_registrations ((g, reg) # rest) s =
     (let (res, s1) = create_registration g reg s;
          (ress, s2) = create_registrations rest s1
      in (res # ress, s2))"

text \<open>The number of stored registrations of a course whose status is \<^verbatim>\<open>enrolled\<close>.\<close>

definition count_enrolled :: "uuid \<Rightarrow> (uuid \<times> registration_read) list \<Rightarrow> nat" where
  "count_enrolled cid regs =
     length (filter (\<lambda>r. course_id r = cid \<and> status r = ''enrolled'') (map snd regs))"

text \<open>By how much a stored course's \<^verbatim>\<open>enrollment\<close> exceeds that number.\<close>

definition ledger_gap :: "('p, 'a) store \<Rightarrow> uuid \<Rightarrow> int option" where
  "ledger_gap s cid =
     map_option (\<lambda>c. enrollment c - int (count_enrolled cid (registrations s)))
       (map_of (courses s) cid)"

text \<open>
  Every record is stored under its own id and keys are unique (\<open>keys_ok\<close>); every
  registration refers to a stored person and a stored course (\<open>refs_ok\<close>).
\<close>

definition keys_ok :: "('p, 'a) store \<Rightarrow> bool" where
  "keys_ok s \<longleftrightarrow>
     distinct (map fst (courses s)) \<and> distinct (map fst (registrations s)) \<and>
     (\<forall>(k, c) \<in> set (courses s). c_id c = k) \<and>
     (\<forall>(k, r) \<in> set (registrations s). r_id r = k)"

definition refs_ok :: "('p, 'a) store \<Rightarrow> bool" where
  "refs_ok s \<longleftrightarrow>
     (\<forall>(k, r) \<in> set (registrations s).
        contains (persons s) (person_id r) \<and> contains (courses s) (course_id r))"

text \<open>The requests of the registration workflow, and the capacity bound on every course.\<close>

fun is_workflow :: "('p, 'a) request \<Rightarrow> bool" where
  "is_workflow (PostRegistration g r) = True"
| "is_workflow (PatchRegistration k u) = True"
| "is_workflow _ = False"

definition within_capacity :: "('p, 'a) store \<Rightarrow> bool" where
  "within_capacity s \<longleftrightarrow> (\<forall>(k, c) \<in> set (courses s). enrollment c \<le> capacity c)"

text \<open>
  Requests that leave the ledger to the registration workflow: a course is created with
  \<^verbatim>\<open>enrollment\<close> 0 under an id that is not yet a key, a course update supplies no
  \<^verbatim>\<open>enrollment\<close> value, a registration is created under an id that is not yet a key,
  and a status update is \<^verbatim>\<open>enrolled\<close> to \<^verbatim>\<open>dropped\<close> or does not change whether the
  registration is \<^verbatim>\<open>enrolled\<close> (or fails).  Person and address requests are not
  restricted.  \<open>all_safe\<close> checks each request of a list in the store it is served in.
\<close>

fun ledger_safe :: "('p, 'a) store \<Rightarrow> ('p, 'a) request \<Rightarrow> bool" where
  "ledger_safe s (PostCourse g c) = (enrollment c = 0 \<and> \<not> contains (courses s) (gen_id g))"
| "ledger_safe s (PatchCourse k u now) =
     (case u_enrollment u of Given v \<Rightarrow> False | _ \<Rightarrow> True)"
| "ledger_safe s (PostRegistration g r) = (\<not> contains (registrations s) (gen_id g))"
| "ledger_safe s (PatchRegistration k u) =
     (case map_of (registrations s) k of
        None \<Rightarrow> True
      | Some r \<Rightarrow>
          (case overlay (u_status u) (status r) of
             None \<Rightarrow> True
           | Some st \<Rightarrow>
               (status r = ''enrolled'' \<and> st = ''dropped'') \<or>
               (status r = ''enrolled'' \<longleftrightarrow> st = ''enrolled'')))"
| "ledger_safe s _ = True"

fun all_safe :: "('p, 'a) request list \<Rightarrow> ('p, 'a) store \<Rightarrow> bool" where
  "all_safe [] s = True"
| "all_safe (r # rs) s = (ledger_safe s r \<and> all_safe rs (handle r s))"

text \<open>Every stored course's \<^verbatim>\<open>enrollment\<close> is the number of its enrolled registrations.\<close>

definition ledger_exact :: "('p, 'a) store \<Rightarrow> bool" where
  "ledger_exact s \<longleftrightarrow>
     (\<forall>(k, c) \<in> set (courses s). enrollment c = int (count_enrolled k (registrations s)))"

section \<open>Concrete stores used to exercise the properties\<close>

definition fresh :: "uuid \<Rightarrow> defaults" where
  "fresh i = \<lparr>gen_id = i, gen_created_at = 0, gen_updated_at = 0\<rparr>"

definition demo_course :: "int \<Rightarrow> int \<Rightarrow> course_base" where
  "demo_course cap enr =
     \<lparr>coursenumber = ''COMS4153'', instructor = ''Donald F Ferguson'',
      time = ''F 1:10pm-3:40pm'', location = ''501 Northwest Corner Building'',
      capacity = cap, enrollment = enr\<rparr>"

definition demo_reg :: registration_base where
  "demo_reg = \<lparr>person_id = 1, course_id = 2\<rparr>"

definition set_status :: "string \<Rightarrow> registration_update" where
  "set_status st = \<lparr>u_status = Given st\<rparr>"

text \<open>
  One person (id 1), one course (id 2) created with the given capacity and enrollment,
  then one registration request of that person for that course per listed id.
\<close>

definition demo_store :: "int \<Rightarrow> int \<Rightarrow> uuid list \<Rightarrow> (unit, unit) store" where
  "demo_store cap enr ids =
     run ([PostPerson (fresh 1) (), PostCourse (fresh 2) (demo_course cap enr)] @
          map (\<lambda>i. PostRegistration (fresh i) demo_reg) ids) init"

text \<open>The partial update \<^verbatim>\<open>{"enrollment": 10, "capacity": 200}\<close> of a course, and an
  address creation payload.\<close>

definition demo_patch :: course_update where
  "demo_patch =
     \<lparr>u_coursenumber = Unset, u_instructor = Unset, u_time = Unset, u_location = Unset,
      u_capacity = Given 200, u_enrollment = Given 10\<rparr>"

definition demo_address :: "unit address_create" where
  "demo_address = \<lparr>ac_id = 7, ac_fields = ()\<rparr>"

text \<open>One seat, two registrations, then the first one is dropped.\<close>

definition demo_session :: "(unit, unit) request list" where
  "demo_session =
     [PostPerson (fresh 1) (), PostCourse (fresh 2) (demo_course 1 0),
      PostRegistration (fresh 3) demo_reg, PostRegistration (fresh 4) demo_reg,
      PatchRegistration 3 (set_status ''dropped'')]"

section \<open>Evaluation rules\<close>

lemmas eval_simps =
  create_person_def create_course_def create_registration_def update_registration_def
  update_course_def create_address_def Let_def contains_def init_def fresh_def
  demo_course_def demo_reg_def set_status_def demo_store_def first_waitlisted_def
  merge_course_def

section \<open>The enrollment filter of the course listing\<close>

text \<open>
  C10.  Whatever the courses store holds and whatever integer is supplied for the
  \<^verbatim>\<open>enrollment\<close> query parameter (and whatever the other filters are), the course
  listing is empty: the filter compares the string \<^verbatim>\<open>str(p.enrollment)\<close> with the
  integer parameter, and a string never equals an integer.
\<close>

theorem list_courses_enrollment_filter_empty:
  "list_courses coursenumber_q instructor_q time_q location_q capacity_q (Some n) s = []"
  by (simp add: list_courses_def Let_def)

section \<open>Facts about dictionary assignment\<close>

lemma in_set_updateD:
  "(j, w) \<in> set (AList.update k v al) \<Longrightarrow> (j = k \<and> w = v) \<or> (j, w) \<in> set al"
  by (induction al) (auto split: if_splits)

lemma contains_update: "contains (AList.update k v al) j \<longleftrightarrow> j = k \<or> contains al j"
  by (simp add: contains_def update_conv')

lemma find_SomeD: "find P xs = Some x \<Longrightarrow> x \<in> set xs \<and> P x"
  by (induction xs) (auto split: if_splits)

lemma first_waitlisted_SomeD:
  "first_waitlisted cid regs = Some (k, w) \<Longrightarrow>
     (k, w) \<in> set regs \<and> course_id w = cid \<and> status w = ''waitlisted''"
  unfolding first_waitlisted_def by (auto dest: find_SomeD)

section \<open>Invariants of reachable states\<close>

lemma keys_ok_create_registration:
  assumes "keys_ok s"
  shows "keys_ok (snd (create_registration g reg s))"
  using assms unfolding create_registration_def keys_ok_def
  by (auto simp: Let_def distinct_update split: option.splits
        dest!: map_of_SomeD in_set_updateD)

lemma keys_ok_update_registration:
  assumes "keys_ok s"
  shows "keys_ok (snd (update_registration k u s))"
  using assms unfolding update_registration_def keys_ok_def
  by (auto simp: Let_def distinct_update split: option.splits
        dest!: map_of_SomeD in_set_updateD first_waitlisted_SomeD)

lemma keys_ok_create_course: "keys_ok s \<Longrightarrow> keys_ok (snd (create_course g c s))"
  unfolding create_course_def keys_ok_def
  by (auto simp: Let_def distinct_update dest!: in_set_updateD)

lemma merge_course_id: "merge_course stored upd now = Some c \<Longrightarrow> c_id c = c_id stored"
  by (auto simp: merge_course_def split: option.splits)

lemma keys_ok_update_course: "keys_ok s \<Longrightarrow> keys_ok (snd (update_course k u now s))"
  unfolding update_course_def keys_ok_def
  by (auto simp: Let_def distinct_update split: option.splits
        dest!: map_of_SomeD in_set_updateD merge_course_id)

lemma keys_ok_handle: "keys_ok s \<Longrightarrow> keys_ok (handle r s)"
proof (cases r)
  case (PostCourse g c) then show "keys_ok s \<Longrightarrow> ?thesis" by (simp add: keys_ok_create_course)
next
  case (PatchCourse k u n) then show "keys_ok s \<Longrightarrow> ?thesis" by (simp add: keys_ok_update_course)
next
  case (PostRegistration g c) then show "keys_ok s \<Longrightarrow> ?thesis" by (simp add: keys_ok_create_registration)
next
  case (PatchRegistration g c) then show "keys_ok s \<Longrightarrow> ?thesis" by (simp add: keys_ok_update_registration)
qed (auto simp: keys_ok_def create_address_def update_address_def create_person_def update_person_def Let_def split: option.splits)

lemma refs_ok_create_registration:
  "refs_ok s \<Longrightarrow> refs_ok (snd (create_registration g reg s))"
  unfolding create_registration_def refs_ok_def
  by (auto simp: Let_def contains_update split: option.splits
        dest!: in_set_updateD)

lemma refs_ok_update_registration:
  "refs_ok s \<Longrightarrow> refs_ok (snd (update_registration k u s))"
  unfolding update_registration_def refs_ok_def
  by (auto simp: Let_def contains_update split: option.splits
        dest!: in_set_updateD first_waitlisted_SomeD map_of_SomeD)

lemma refs_ok_handle: "refs_ok s \<Longrightarrow> refs_ok (handle r s)"
proof (cases r)
  case (PostRegistration g c) then show "refs_ok s \<Longrightarrow> ?thesis" by (simp add: refs_ok_create_registration)
next
  case (PatchRegistration g c) then show "refs_ok s \<Longrightarrow> ?thesis" by (simp add: refs_ok_update_registration)
qed (auto simp: refs_ok_def create_address_def update_address_def create_person_def update_person_def
      create_course_def update_course_def contains_update Let_def split: option.splits)

lemma reachable_inv: "reachable s \<Longrightarrow> keys_ok s \<and> refs_ok s"
proof (induction rule: reachable.induct)
  case reachable_init
  show ?case by (simp add: init_def keys_ok_def refs_ok_def)
next
  case (reachable_step s r)
  then show ?case by (simp add: keys_ok_handle refs_ok_handle)
qed

lemma reachable_run: "reachable s \<Longrightarrow> reachable (run rs s)"
  by (induction rs arbitrary: s) (auto intro: reachable_step)

lemma keys_ok_course_id:
  "keys_ok s \<Longrightarrow> map_of (courses s) k = Some c \<Longrightarrow> c_id c = k"
  by (auto simp: keys_ok_def dest!: map_of_SomeD)

lemma refs_ok_course:
  "refs_ok s \<Longrightarrow> map_of (registrations s) k = Some r \<Longrightarrow> \<exists>c. map_of (courses s) (course_id r) = Some c"
  by (auto simp: refs_ok_def contains_def dest!: map_of_SomeD)

lemma first_waitlisted_None:
  "first_waitlisted cid regs = None \<longleftrightarrow>
     \<not> (\<exists>w \<in> snd ` set regs. course_id w = cid \<and> status w = ''waitlisted'')"
  unfolding first_waitlisted_def by (force simp: find_None_iff)

section \<open>What a status update does in a well-formed store\<close>

lemma update_registration_plain:
  assumes "keys_ok s" "map_of (registrations s) rid = Some r"
    and "overlay (u_status upd) (status r) = Some st"
    and "map_of (courses s) (course_id r) = Some c"
    and "\<not> (status r = ''enrolled'' \<and> st = ''dropped'')"
  shows "update_registration rid upd s =
           (Inr (r\<lparr>status := st\<rparr>),
            s\<lparr>registrations := AList.update rid (r\<lparr>status := st\<rparr>) (registrations s)\<rparr>)"
proof -
  have "c_id c = course_id r" using assms(1,4) by (rule keys_ok_course_id)
  then have "AList.update (c_id c) c (courses s) = courses s"
    using assms(4) by (simp add: update_triv)
  then show ?thesis
    using assms by (auto simp: update_registration_def Let_def)
qed

lemma update_registration_drop_no_waitlist:
  assumes "keys_ok s" "map_of (registrations s) rid = Some r"
    and "status r = ''enrolled''" "u_status upd = Given ''dropped''"
    and "map_of (courses s) (course_id r) = Some c"
    and "first_waitlisted (course_id r) (registrations s) = None"
  shows "update_registration rid upd s =
           (Inr (r\<lparr>status := ''dropped''\<rparr>),
            s\<lparr>registrations := AList.update rid (r\<lparr>status := ''dropped''\<rparr>) (registrations s),
              courses := AList.update (course_id r) (c\<lparr>enrollment := enrollment c - 1\<rparr>) (courses s)\<rparr>)"
proof -
  have "c_id c = course_id r" using assms(1,5) by (rule keys_ok_course_id)
  then show ?thesis
    using assms by (simp add: update_registration_def Let_def)
qed

lemma update_registration_drop_promote:
  assumes "keys_ok s" "map_of (registrations s) rid = Some r"
    and "status r = ''enrolled''" "u_status upd = Given ''dropped''"
    and "map_of (courses s) (course_id r) = Some c"
    and "first_waitlisted (course_id r) (registrations s) = Some (k, w)"
  shows "update_registration rid upd s =
           (Inr (r\<lparr>status := ''dropped''\<rparr>),
            s\<lparr>registrations := AList.update rid (r\<lparr>status := ''dropped''\<rparr>)
                 (AList.update k (w\<lparr>status := ''enrolled''\<rparr>) (registrations s)),
              courses := courses s\<rparr>)"
proof -
  have cid: "c_id c = course_id r" using assms(1,5) by (rule keys_ok_course_id)
  have "(k, w) \<in> set (registrations s)" using assms(6) by (auto dest: first_waitlisted_SomeD)
  then have "r_id w = k" using assms(1) by (auto simp: keys_ok_def)
  moreover have "AList.update (course_id r) c (courses s) = courses s"
    using assms(5) by (simp add: update_triv)
  ultimately show ?thesis
    using assms cid by (simp add: update_registration_def Let_def)
qed

section \<open>Registration workflow: failures\<close>

text \<open>
  C6.  In every store, a create-registration request whose \<^verbatim>\<open>person_id\<close> is not a key
  of \<^verbatim>\<open>persons\<close> or whose \<^verbatim>\<open>course_id\<close> is not a key of \<^verbatim>\<open>courses\<close> fails with
  HTTP status 404 and returns the store it was given: no registration is added and no
  course is touched.
\<close>

theorem create_registration_unknown_ids:
  assumes "\<not> contains (persons s) (person_id reg) \<or> \<not> contains (courses s) (course_id reg)"
  shows "\<exists>d. create_registration g reg s = (Inl (HTTPException 404 d), s)"
  using assms by (auto simp: create_registration_def contains_def split: option.splits)

theorem create_registration_unknown_ids_witness:
  "\<not> contains (persons (init :: (unit, unit) store)) (person_id demo_reg) \<and>
   create_registration (fresh 3) demo_reg (init :: (unit, unit) store) =
     (Inl (HTTPException 404 ''Person not found''), init)"
  using create_registration_unknown_ids [of "init :: (unit, unit) store" demo_reg "fresh 3"]
  by (simp add: eval_simps)

section \<open>Referential integrity\<close>

text \<open>
  C9.  In every reachable store each registration's \<^verbatim>\<open>person_id\<close> is a key of
  \<^verbatim>\<open>persons\<close> and its \<^verbatim>\<open>course_id\<close> is a key of \<^verbatim>\<open>courses\<close>; hence the unguarded
  lookup \<^verbatim>\<open>courses[registration.course_id]\<close> of the status update never raises
  \<^verbatim>\<open>KeyError\<close>, for any registration id and any payload.
\<close>

theorem referential_integrity:
  assumes "reachable s"
  shows "(\<forall>(k, r) \<in> set (registrations s).
            contains (persons s) (person_id r) \<and> contains (courses s) (course_id r)) \<and>
         fst (update_registration rid upd s) \<noteq> Inl KeyError"
proof
  have inv: "refs_ok s" using assms by (simp add: reachable_inv)
  then show "\<forall>(k, r) \<in> set (registrations s).
            contains (persons s) (person_id r) \<and> contains (courses s) (course_id r)"
    by (simp add: refs_ok_def)
  show "fst (update_registration rid upd s) \<noteq> Inl KeyError"
  proof (cases "map_of (registrations s) rid")
    case None
    then show ?thesis by (simp add: update_registration_def)
  next
    case (Some r)
    then obtain c where "map_of (courses s) (course_id r) = Some c"
      using inv refs_ok_course by blast
    with Some show ?thesis
      by (auto simp: update_registration_def Let_def split: option.splits prod.splits)
  qed
qed

theorem referential_integrity_witness:
  "reachable (demo_store 1 0 [3]) \<and>
   map (\<lambda>(k, r). (k, person_id r, course_id r)) (registrations (demo_store 1 0 [3])) =
     [(3, 1, 2)] \<and>
   fst (update_registration 3 (set_status ''dropped'') (demo_store 1 0 [3])) \<noteq> Inl KeyError"
proof -
  have r: "reachable (demo_store 1 0 [3])"
    unfolding demo_store_def by (rule reachable_run) (rule reachable_init)
  have l: "map (\<lambda>(k, r). (k, person_id r, course_id r)) (registrations (demo_store 1 0 [3])) =
     [(3, 1, 2)]"
    by (simp add: eval_simps)
  from referential_integrity [OF r, of 3 "set_status ''dropped''"] r l
  show ?thesis by blast
qed

section \<open>Registration workflow: status updates\<close>

text \<open>
  C5.  A status update of a reachable store whose (old status, new status) pair is
  not (\<^verbatim>\<open>enrolled\<close>, \<^verbatim>\<open>dropped\<close>) leaves the courses dictionary as it was, so no
  course's \<^verbatim>\<open>enrollment\<close> changes, and leaves every registration other than the updated
  one as it was.  With old status \<^verbatim>\<open>enrolled\<close> the new status is \<^verbatim>\<open>dropped\<close> exactly
  when the payload supplies \<^verbatim>\<open>dropped\<close>.
\<close>

theorem other_transitions_frame:
  assumes "reachable s"
    and "\<not> (map_option status (map_of (registrations s) rid) = Some ''enrolled'' \<and>
            u_status upd = Given ''dropped'')"
    and "update_registration rid upd s = (res, s')"
  shows "courses s' = courses s \<and>
         (\<forall>k. k \<noteq> rid \<longrightarrow> map_of (registrations s') k = map_of (registrations s) k)"
proof (cases "map_of (registrations s) rid")
  case None
  then show ?thesis using assms(3) by (simp add: update_registration_def)
next
  case (Some r)
  have k: "keys_ok s" and ro: "refs_ok s" using assms(1) by (simp_all add: reachable_inv)
  obtain c where c: "map_of (courses s) (course_id r) = Some c"
    using ro Some refs_ok_course by blast
  show ?thesis
  proof (cases "overlay (u_status upd) (status r)")
    case None
    then show ?thesis using assms(3) Some by (simp add: update_registration_def)
  next
    case st: (Some st)
    have "\<not> (status r = ''enrolled'' \<and> st = ''dropped'')"
      using assms(2) Some st by (cases "u_status upd") auto
    from update_registration_plain [OF k Some st c this] assms(3)
    show ?thesis by (auto simp: update_conv')
  qed
qed

theorem other_transitions_frame_witness:
  "reachable (demo_store 1 0 [3, 4]) \<and>
   map_option status (map_of (registrations (demo_store 1 0 [3, 4])) 4) = Some ''waitlisted'' \<and>
   courses (snd (update_registration 4 (set_status ''dropped'') (demo_store 1 0 [3, 4]))) =
     courses (demo_store 1 0 [3, 4]) \<and>
   map_of (registrations
       (snd (update_registration 4 (set_status ''dropped'') (demo_store 1 0 [3, 4])))) 3 =
     map_of (registrations (demo_store 1 0 [3, 4])) 3"
proof -
  have r: "reachable (demo_store 1 0 [3, 4])"
    unfolding demo_store_def by (rule reachable_run) (rule reachable_init)
  have w: "map_option status (map_of (registrations (demo_store 1 0 [3, 4])) 4) =
      Some ''waitlisted''"
    by (simp add: eval_simps)
  have n: "\<not> (map_option status (map_of (registrations (demo_store 1 0 [3, 4])) 4) =
      Some ''enrolled'' \<and> u_status (set_status ''dropped'') = Given ''dropped'')"
    by (simp add: eval_simps)
  from other_transitions_frame [OF r n surjective_pairing] r w
  show ?thesis by simp
qed

text \<open>
  C4.  In a reachable store, setting a stored \<^verbatim>\<open>enrolled\<close> registration to
  \<^verbatim>\<open>dropped\<close> succeeds and stores it as dropped.  If some registration of the same
  course is \<^verbatim>\<open>waitlisted\<close>, exactly one such registration, other than the dropped one,
  becomes \<^verbatim>\<open>enrolled\<close>, every other registration is as before and the courses
  dictionary, hence the course's \<^verbatim>\<open>enrollment\<close>, is unchanged.  If none is waitlisted,
  the course's \<^verbatim>\<open>enrollment\<close> is one less, every other course and every other
  registration is as before.
\<close>

theorem drop_enrolled_registration:
  assumes "reachable s"
    and "map_of (registrations s) rid = Some r" and "status r = ''enrolled''"
    and "u_status upd = Given ''dropped''"
    and "update_registration rid upd s = (res, s')"
  shows "\<exists>c. map_of (courses s) (course_id r) = Some c \<and>
           res = Inr (r\<lparr>status := ''dropped''\<rparr>) \<and>
           map_of (registrations s') rid = Some (r\<lparr>status := ''dropped''\<rparr>) \<and>
           (if \<exists>w \<in> snd ` set (registrations s).
                 course_id w = course_id r \<and> status w = ''waitlisted''
            then courses s' = courses s \<and>
                 (\<exists>k w. k \<noteq> rid \<and> map_of (registrations s) k = Some w \<and>
                    course_id w = course_id r \<and> status w = ''waitlisted'' \<and>
                    map_of (registrations s') k = Some (w\<lparr>status := ''enrolled''\<rparr>) \<and>
                    (\<forall>j. j \<noteq> rid \<and> j \<noteq> k \<longrightarrow>
                       map_of (registrations s') j = map_of (registrations s) j))
            else map_of (courses s') (course_id r) = Some (c\<lparr>enrollment := enrollment c - 1\<rparr>) \<and>
                 (\<forall>j. j \<noteq> course_id r \<longrightarrow> map_of (courses s') j = map_of (courses s) j) \<and>
                 (\<forall>j. j \<noteq> rid \<longrightarrow> map_of (registrations s') j = map_of (registrations s) j))"
proof -
  have k: "keys_ok s" and ro: "refs_ok s" using assms(1) by (simp_all add: reachable_inv)
  obtain c where c: "map_of (courses s) (course_id r) = Some c"
    using ro assms(2) refs_ok_course by blast
  show ?thesis
  proof (cases "first_waitlisted (course_id r) (registrations s)")
    case None
    then have nw: "\<not> (\<exists>w \<in> snd ` set (registrations s).
                 course_id w = course_id r \<and> status w = ''waitlisted'')"
      by (simp add: first_waitlisted_None)
    from update_registration_drop_no_waitlist [OF k assms(2,3,4) c None] assms(5)
    have "res = Inr (r\<lparr>status := ''dropped''\<rparr>)"
      and "registrations s' = AList.update rid (r\<lparr>status := ''dropped''\<rparr>) (registrations s)"
      and "courses s' = AList.update (course_id r) (c\<lparr>enrollment := enrollment c - 1\<rparr>) (courses s)"
      by auto
    then show ?thesis using c nw by (auto simp: update_conv')
  next
    case (Some kw)
    obtain j w where kw: "kw = (j, w)" by (cases kw)
    have fw: "first_waitlisted (course_id r) (registrations s) = Some (j, w)"
      using Some kw by simp
    then have mem: "(j, w) \<in> set (registrations s)" and cw: "course_id w = course_id r"
      and sw: "status w = ''waitlisted''"
      by (auto dest: first_waitlisted_SomeD)
    have mw: "map_of (registrations s) j = Some w"
      using mem k by (simp add: keys_ok_def)
    have ne: "j \<noteq> rid" using mw assms(2,3) sw by auto
    have ex: "\<exists>w \<in> snd ` set (registrations s).
                 course_id w = course_id r \<and> status w = ''waitlisted''"
      using mem cw sw by force
    from update_registration_drop_promote [OF k assms(2,3,4) c fw] assms(5)
    have "res = Inr (r\<lparr>status := ''dropped''\<rparr>)"
      and "registrations s' = AList.update rid (r\<lparr>status := ''dropped''\<rparr>)
                 (AList.update j (w\<lparr>status := ''enrolled''\<rparr>) (registrations s))"
      and "courses s' = courses s"
      by auto
    then show ?thesis using c ex mw cw sw ne
      by (auto simp: update_conv' intro!: exI[of _ j])
  qed
qed

theorem drop_enrolled_registration_witness:
  "reachable (demo_store 1 0 [3, 4]) \<and>
   map_option status (map_of (registrations (demo_store 1 0 [3, 4])) 3) = Some ''enrolled'' \<and>
   map (\<lambda>(k, r). (k, status r)) (registrations (demo_store 1 0 [3, 4])) =
     [(3, ''enrolled''), (4, ''waitlisted'')] \<and>
   courses (snd (update_registration 3 (set_status ''dropped'') (demo_store 1 0 [3, 4]))) =
     courses (demo_store 1 0 [3, 4]) \<and>
   map (\<lambda>(k, r). (k, status r))
     (registrations (snd (update_registration 3 (set_status ''dropped'') (demo_store 1 0 [3, 4])))) =
     [(3, ''dropped''), (4, ''enrolled'')]"
proof -
  have r: "reachable (demo_store 1 0 [3, 4])"
    unfolding demo_store_def by (rule reachable_run) (rule reachable_init)
  have a: "map (\<lambda>(k, r). (k, status r))
     (registrations (snd (update_registration 3 (set_status ''dropped'') (demo_store 1 0 [3, 4])))) =
     [(3, ''dropped''), (4, ''enrolled'')]"
    by (simp add: eval_simps)
  obtain reg where m: "map_of (registrations (demo_store 1 0 [3, 4])) 3 = Some reg"
    and e: "status reg = ''enrolled''"
    by (simp add: eval_simps)
  have l: "map (\<lambda>(k, r). (k, status r)) (registrations (demo_store 1 0 [3, 4])) =
     [(3, ''enrolled''), (4, ''waitlisted'')]"
    by (simp add: eval_simps)
  have x: "\<exists>w \<in> snd ` set (registrations (demo_store 1 0 [3, 4])).
      course_id w = course_id reg \<and> status w = ''waitlisted''"
    using m by (simp add: eval_simps) auto
  have u: "u_status (set_status ''dropped'') = Given ''dropped''"
    by (simp add: set_status_def)
  from drop_enrolled_registration [OF r m e u surjective_pairing] x r m e l a
  show ?thesis by auto
qed

section \<open>Registration workflow: filling a course\<close>

lemma create_registration_step:
  assumes "contains (persons s) (person_id reg)"
    and "map_of (courses s) (course_id reg) = Some c"
  shows "\<exists>R s1 c1. create_registration g reg s = (Inr R, s1) \<and>
           status R = (if enrollment c < capacity c then ''enrolled'' else ''waitlisted'') \<and>
           map_of (courses s1) (course_id reg) = Some c1 \<and> capacity c1 = capacity c \<and>
           enrollment c1 = (if enrollment c < capacity c then enrollment c + 1 else enrollment c) \<and>
           persons s1 = persons s"
  using assms by (simp add: create_registration_def Let_def update_conv')

lemma create_registrations_fill:
  assumes "map_of (courses s) cid = Some c"
    and "\<forall>(g, reg) \<in> set reqs. course_id reg = cid \<and> contains (persons s) (person_id reg)"
  shows "\<exists>rs s' c'. create_registrations reqs s = (map Inr rs, s') \<and>
           map status rs =
             replicate (min (length reqs) (nat (capacity c - enrollment c))) ''enrolled'' @
             replicate (length reqs - nat (capacity c - enrollment c)) ''waitlisted'' \<and>
           map_of (courses s') cid = Some c' \<and> capacity c' = capacity c \<and>
           enrollment c' = enrollment c + int (min (length reqs) (nat (capacity c - enrollment c)))"
  using assms
proof (induction reqs arbitrary: s c)
  case Nil
  then show ?case by simp
next
  case (Cons req reqs)
  obtain g reg where req: "req = (g, reg)" by (cases req)
  have cid: "course_id reg = cid" and p: "contains (persons s) (person_id reg)"
    using Cons.prems(2) req by auto
  from create_registration_step [OF p, of c g] Cons.prems(1) cid
  obtain R s1 c1 where step: "create_registration g reg s = (Inr R, s1)"
    and sR: "status R = (if enrollment c < capacity c then ''enrolled'' else ''waitlisted'')"
    and c1: "map_of (courses s1) cid = Some c1" and cap: "capacity c1 = capacity c"
    and enr: "enrollment c1 = (if enrollment c < capacity c then enrollment c + 1 else enrollment c)"
    and ps: "persons s1 = persons s"
    by auto
  have "\<forall>(g, reg) \<in> set reqs. course_id reg = cid \<and> contains (persons s1) (person_id reg)"
    using Cons.prems(2) ps by auto
  from Cons.IH [OF c1 this]
  obtain rs s' c' where rest: "create_registrations reqs s1 = (map Inr rs, s')"
    and st: "map status rs =
             replicate (min (length reqs) (nat (capacity c1 - enrollment c1))) ''enrolled'' @
             replicate (length reqs - nat (capacity c1 - enrollment c1)) ''waitlisted''"
    and c': "map_of (courses s') cid = Some c'" and cap': "capacity c' = capacity c1"
    and enr': "enrollment c' = enrollment c1 + int (min (length reqs) (nat (capacity c1 - enrollment c1)))"
    by blast
  have run: "create_registrations (req # reqs) s = (map Inr (R # rs), s')"
    using req step rest by simp
  show ?case
  proof (cases "enrollment c < capacity c")
    case True
    then obtain d where d: "nat (capacity c - enrollment c) = Suc d"
      by (cases "nat (capacity c - enrollment c)") auto
    then have d1: "nat (capacity c1 - enrollment c1) = d"
      using True cap enr by simp
    have "map status (R # rs) =
             replicate (min (length (req # reqs)) (nat (capacity c - enrollment c))) ''enrolled'' @
             replicate (length (req # reqs) - nat (capacity c - enrollment c)) ''waitlisted''"
      using st sR True d d1 by simp
    moreover have "enrollment c' =
        enrollment c + int (min (length (req # reqs)) (nat (capacity c - enrollment c)))"
      using enr' enr True d d1 by simp
    ultimately show ?thesis using run c' cap' cap
      by - (rule exI[of _ "R # rs"], rule exI[of _ s'], rule exI[of _ c'], simp)
  next
    case False
    then have d: "nat (capacity c - enrollment c) = 0" by simp
    then have d1: "nat (capacity c1 - enrollment c1) = 0"
      using False cap enr by simp
    have "map status (R # rs) =
             replicate (min (length (req # reqs)) (nat (capacity c - enrollment c))) ''enrolled'' @
             replicate (length (req # reqs) - nat (capacity c - enrollment c)) ''waitlisted''"
      using st sR False d d1 by simp
    moreover have "enrollment c' =
        enrollment c + int (min (length (req # reqs)) (nat (capacity c - enrollment c)))"
      using enr' enr False d d1 by simp
    ultimately show ?thesis using run c' cap' cap
      by - (rule exI[of _ "R # rs"], rule exI[of _ s'], rule exI[of _ c'], simp)
  qed
qed

text \<open>
  C3 (amended).  For a stored course with capacity \<open>N\<close> whose \<^verbatim>\<open>enrollment\<close> is 0,
  \<open>N + 1\<close> successive registration requests for it by stored persons all succeed; the
  first \<open>N\<close> registrations are \<^verbatim>\<open>enrolled\<close>, the last is \<^verbatim>\<open>waitlisted\<close>, and the
  course's \<^verbatim>\<open>enrollment\<close> is \<open>N\<close> afterwards.
\<close>

theorem fill_empty_course_then_waitlist:
  assumes "map_of (courses s) cid = Some c" and "capacity c = int N" and "enrollment c = 0"
    and "length reqs = Suc N"
    and "\<forall>(g, reg) \<in> set reqs. course_id reg = cid \<and> contains (persons s) (person_id reg)"
  shows "\<exists>rs s' c'. create_registrations reqs s = (map Inr rs, s') \<and> length rs = Suc N \<and>
           map status (take N rs) = replicate N ''enrolled'' \<and>
           status (rs ! N) = ''waitlisted'' \<and>
           map_of (courses s') cid = Some c' \<and> enrollment c' = int N"
proof -
  from create_registrations_fill [OF assms(1,5)] assms(2,3,4)
  obtain rs s' c' where run: "create_registrations reqs s = (map Inr rs, s')"
    and st: "map status rs = replicate N ''enrolled'' @ [''waitlisted'']"
    and c': "map_of (courses s') cid = Some c'" and enr: "enrollment c' = int N"
    by auto
  have len: "length rs = Suc N"
    using st by (metis length_map length_append_singleton length_replicate)
  have "map status (take N rs) = take N (map status rs)" by (simp add: take_map)
  then have t: "map status (take N rs) = replicate N ''enrolled''" using st by simp
  have "status (rs ! N) = map status rs ! N" using len by simp
  then have "status (rs ! N) = ''waitlisted''" using st by (simp add: nth_append)
  then show ?thesis using run len t c' enr
    by - (rule exI[of _ rs], rule exI[of _ s'], rule exI[of _ c'], simp)
qed

theorem fill_empty_course_then_waitlist_witness:
  "map_option capacity (map_of (courses (demo_store 1 0 [])) 2) = Some 1 \<and>
   map_option enrollment (map_of (courses (demo_store 1 0 [])) 2) = Some 0 \<and>
   map (map_sum id status)
     (fst (create_registrations [(fresh 3, demo_reg), (fresh 4, demo_reg)] (demo_store 1 0 []))) =
     [Inr ''enrolled'', Inr ''waitlisted''] \<and>
   map (enrollment \<circ> snd)
     (courses (snd (create_registrations [(fresh 3, demo_reg), (fresh 4, demo_reg)]
        (demo_store 1 0 [])))) = [1]"
proof -
  obtain c where c: "map_of (courses (demo_store 1 0 [])) 2 = Some c"
    and cap: "capacity c = int 1" and enr: "enrollment c = 0"
    by (simp add: eval_simps)
  have l: "length [(fresh 3, demo_reg), (fresh 4, demo_reg)] = Suc 1" by simp
  have p: "\<forall>(g, reg) \<in> set [(fresh 3, demo_reg), (fresh 4, demo_reg)].
      course_id reg = 2 \<and> contains (persons (demo_store 1 0 [])) (person_id reg)"
    by (simp add: eval_simps)
  have "map (map_sum id status)
     (fst (create_registrations [(fresh 3, demo_reg), (fresh 4, demo_reg)] (demo_store 1 0 []))) =
     [Inr ''enrolled'', Inr ''waitlisted'']"
    by (simp add: eval_simps)
  moreover have "map (enrollment \<circ> snd)
     (courses (snd (create_registrations [(fresh 3, demo_reg), (fresh 4, demo_reg)]
        (demo_store 1 0 [])))) = [1]"
    by (simp add: eval_simps)
  ultimately show ?thesis
    using fill_empty_course_then_waitlist [OF c cap enr l p] c cap enr by simp
qed

text \<open>
  Without the condition on the initial \<^verbatim>\<open>enrollment\<close> the property fails: the
  creation payload of a course carries its \<^verbatim>\<open>enrollment\<close>, and a course created with
  capacity 1 and enrollment 1 waitlists the very first registration.
\<close>

theorem full_course_waitlists_first_counterexample:
  "map (capacity \<circ> snd) (courses (demo_store 1 1 [])) = [1] \<and>
   map (map_sum id status)
     (fst (create_registrations [(fresh 3, demo_reg), (fresh 4, demo_reg)] (demo_store 1 1 []))) =
     [Inr ''waitlisted'', Inr ''waitlisted'']"
  by (simp add: eval_simps)

section \<open>Bounds on the enrollment of a course\<close>

lemma within_capacity_create_registration:
  "within_capacity s \<Longrightarrow> within_capacity (snd (create_registration g reg s))"
  unfolding create_registration_def within_capacity_def
  by (auto simp: Let_def split: option.splits dest!: in_set_updateD map_of_SomeD)

lemma within_capacity_update_registration:
  "within_capacity s \<Longrightarrow> within_capacity (snd (update_registration k u s))"
  unfolding update_registration_def within_capacity_def
  by (auto simp: Let_def split: option.splits dest!: in_set_updateD map_of_SomeD)

lemma within_capacity_run:
  "within_capacity s \<Longrightarrow> \<forall>r \<in> set rs. is_workflow r \<Longrightarrow> within_capacity (run rs s)"
proof (induction rs arbitrary: s)
  case Nil
  then show ?case by simp
next
  case (Cons r rs)
  have "within_capacity (handle r s)"
    using Cons.prems
    by (cases r) (simp_all add: within_capacity_create_registration within_capacity_update_registration)
  then show ?case using Cons by simp
qed

text \<open>
  C2 (amended).  From any store in which every course has \<^verbatim>\<open>enrollment <= capacity\<close>,
  every sequence of registration creations and registration status updates leads to a
  store in which every course has \<^verbatim>\<open>enrollment <= capacity\<close>.  Nothing is claimed
  about a lower bound.
\<close>

theorem workflow_keeps_enrollment_within_capacity:
  assumes "\<forall>(k, c) \<in> set (courses s). enrollment c \<le> capacity c"
    and "\<forall>r \<in> set rs. is_workflow r"
  shows "\<forall>(k, c) \<in> set (courses (run rs s)). enrollment c \<le> capacity c"
  using within_capacity_run [of s rs] assms by (simp add: within_capacity_def)

theorem workflow_keeps_enrollment_within_capacity_witness:
  "map (enrollment \<circ> snd) (courses (demo_store 1 0 [])) = [0] \<and>
   map (capacity \<circ> snd) (courses (demo_store 1 0 [])) = [1] \<and>
   map (enrollment \<circ> snd)
     (courses (run [PostRegistration (fresh 3) demo_reg, PostRegistration (fresh 4) demo_reg,
                    PatchRegistration 3 (set_status ''dropped'')] (demo_store 1 0 []))) = [1] \<and>
   map (capacity \<circ> snd)
     (courses (run [PostRegistration (fresh 3) demo_reg, PostRegistration (fresh 4) demo_reg,
                    PatchRegistration 3 (set_status ''dropped'')] (demo_store 1 0 []))) = [1]"
proof -
  have a: "\<forall>(k, c) \<in> set (courses (demo_store 1 0 [])). enrollment c \<le> capacity c"
    by (simp add: eval_simps)
  have b: "\<forall>r \<in> set [PostRegistration (fresh 3) demo_reg, PostRegistration (fresh 4) demo_reg,
                    PatchRegistration 3 (set_status ''dropped'') :: (unit, unit) request].
             is_workflow r"
    by simp
  from workflow_keeps_enrollment_within_capacity [OF a b]
  show ?thesis by (simp add: eval_simps)
qed

text \<open>
  The lower bound \<^verbatim>\<open>0 <= enrollment\<close> is not kept.  Status transitions are free-form
  and only \<^verbatim>\<open>enrolled\<close> to \<^verbatim>\<open>dropped\<close> touches the ledger: one registration that is
  dropped, set back to \<^verbatim>\<open>enrolled\<close> and dropped again takes two seats off a course that
  had one seat taken.
\<close>

theorem enrollment_below_zero_counterexample:
  "map (enrollment \<circ> snd) (courses (demo_store 1 0 [])) = [0] \<and>
   map (capacity \<circ> snd) (courses (demo_store 1 0 [])) = [1] \<and>
   map (enrollment \<circ> snd)
     (courses (run [PostRegistration (fresh 3) demo_reg,
                    PatchRegistration 3 (set_status ''dropped''),
                    PatchRegistration 3 (set_status ''enrolled''),
                    PatchRegistration 3 (set_status ''dropped'')] (demo_store 1 0 []))) = [- 1]"
  by (simp add: eval_simps)

section \<open>Who writes the enrollment of a course\<close>

lemma merge_course_enrollment:
  "merge_course stored upd now = Some c \<Longrightarrow>
     overlay (u_enrollment upd) (enrollment stored) = Some (enrollment c)"
  by (auto simp: merge_course_def split: option.splits)

text \<open>
  C7 (amended).  A course update that does not supply \<^verbatim>\<open>enrollment\<close> changes no
  course's \<^verbatim>\<open>enrollment\<close>; one that supplies a value and succeeds stores that value as
  the course's \<^verbatim>\<open>enrollment\<close>; no course update changes a course other than the one
  addressed.  Creating a course always succeeds, stores the new course under the
  generated id with the \<^verbatim>\<open>enrollment\<close> of the payload, and changes no other course.
\<close>

theorem course_endpoints_store_payload_enrollment:
  "(u_enrollment upd = Unset \<longrightarrow>
      (\<forall>k. map_option enrollment (map_of (courses (snd (update_course cid upd now s))) k) =
           map_option enrollment (map_of (courses s) k))) \<and>
   (\<forall>v c. u_enrollment upd = Given v \<and> fst (update_course cid upd now s) = Inr c \<longrightarrow>
      enrollment c = v \<and> map_of (courses (snd (update_course cid upd now s))) cid = Some c) \<and>
   (\<forall>k. k \<noteq> cid \<longrightarrow>
      map_of (courses (snd (update_course cid upd now s))) k = map_of (courses s) k) \<and>
   (\<exists>c. create_course g course s = (Inr c, snd (create_course g course s)) \<and>
      enrollment c = enrollment course \<and> c_id c = gen_id g \<and>
      map_of (courses (snd (create_course g course s))) (gen_id g) = Some c) \<and>
   (\<forall>k. k \<noteq> gen_id g \<longrightarrow>
      map_of (courses (snd (create_course g course s))) k = map_of (courses s) k)"
proof (intro conjI)
  show "u_enrollment upd = Unset \<longrightarrow>
      (\<forall>k. map_option enrollment (map_of (courses (snd (update_course cid upd now s))) k) =
           map_option enrollment (map_of (courses s) k))"
    by (auto simp: update_course_def update_conv' split: option.splits
          dest!: merge_course_enrollment)
  show "\<forall>v c. u_enrollment upd = Given v \<and> fst (update_course cid upd now s) = Inr c \<longrightarrow>
      enrollment c = v \<and> map_of (courses (snd (update_course cid upd now s))) cid = Some c"
    by (auto simp: update_course_def update_conv' split: option.splits
          dest!: merge_course_enrollment)
  show "\<forall>k. k \<noteq> cid \<longrightarrow>
      map_of (courses (snd (update_course cid upd now s))) k = map_of (courses s) k"
    by (auto simp: update_course_def update_conv' split: option.splits)
  show "\<exists>c. create_course g course s = (Inr c, snd (create_course g course s)) \<and>
      enrollment c = enrollment course \<and> c_id c = gen_id g \<and>
      map_of (courses (snd (create_course g course s))) (gen_id g) = Some c"
    by (simp add: create_course_def Let_def update_conv')
  show "\<forall>k. k \<noteq> gen_id g \<longrightarrow>
      map_of (courses (snd (create_course g course s))) k = map_of (courses s) k"
    by (simp add: create_course_def Let_def update_conv')
qed

theorem course_endpoints_store_payload_enrollment_witness:
  "u_enrollment demo_patch = Given 10 \<and>
   map (enrollment \<circ> snd) (courses (snd (update_course 2 demo_patch 5 (demo_store 160 0 [])))) = [10] \<and>
   u_enrollment (demo_patch\<lparr>u_enrollment := Unset\<rparr>) = Unset \<and>
   map (enrollment \<circ> snd)
     (courses (snd (update_course 2 (demo_patch\<lparr>u_enrollment := Unset\<rparr>) 5 (demo_store 160 0 [])))) = [0] \<and>
   map (enrollment \<circ> snd) (courses (snd (create_course (fresh 9) (demo_course 160 143) (demo_store 160 0 [])))) = [0, 143]"
  using course_endpoints_store_payload_enrollment
    [of demo_patch 2 5 "demo_store 160 0 []" "fresh 9" "demo_course 160 143"]
    course_endpoints_store_payload_enrollment
    [of "demo_patch\<lparr>u_enrollment := Unset\<rparr>" 2 5 "demo_store 160 0 []" "fresh 9" "demo_course 160 143"]
  by (simp add: eval_simps demo_patch_def)

text \<open>
  So the registration workflow is not the only writer of \<^verbatim>\<open>enrollment\<close>: with no
  registration stored, the update \<^verbatim>\<open>{"enrollment": 10, "capacity": 200}\<close> sets the
  enrollment of a course from 0 to 10, and a course is created with enrollment 143.
\<close>

theorem patch_course_sets_enrollment_counterexample:
  "map (enrollment \<circ> snd) (courses (demo_store 160 0 [])) = [0] \<and>
   registrations (demo_store 160 0 []) = [] \<and>
   map (enrollment \<circ> snd) (courses (snd (update_course 2 demo_patch 5 (demo_store 160 0 [])))) = [10] \<and>
   map (enrollment \<circ> snd)
     (courses (snd (create_course (fresh 9) (demo_course 160 143) (demo_store 160 0 [])))) = [0, 143]"
  by (simp add: eval_simps demo_patch_def)

section \<open>Creating addresses and persons\<close>

text \<open>
  C8 (amended).  Creating an address stores the record under the id carried by the
  creation payload: if that id is not yet a key the request succeeds and returns the
  stored record, otherwise it fails with HTTP status 400 and the store is unchanged.
  Creating a person always succeeds, stores the record under the generated id and
  returns it.
\<close>

theorem create_address_uses_payload_id:
  "(\<not> contains (addresses s) (ac_id address) \<longrightarrow>
      (\<exists>rd. create_address address s = (Inr rd, snd (create_address address s)) \<and>
         a_id rd = ac_id address \<and> a_fields rd = ac_fields address \<and>
         map_of (addresses (snd (create_address address s))) (ac_id address) = Some rd)) \<and>
   (contains (addresses s) (ac_id address) \<longrightarrow>
      create_address address s =
        (Inl (HTTPException 400 ''Address with this ID already exists''), s)) \<and>
   (\<exists>pr. create_person g person s = (Inr pr, snd (create_person g person s)) \<and>
      p_id pr = gen_id g \<and> p_fields pr = person \<and>
      map_of (persons (snd (create_person g person s))) (gen_id g) = Some pr)"
  by (simp add: create_address_def create_person_def Let_def update_conv')

theorem create_address_uses_payload_id_witness:
  "\<not> contains (addresses (init :: (unit, unit) store)) (ac_id demo_address) \<and>
   addresses (snd (create_address demo_address (init :: (unit, unit) store))) =
     [(7, \<lparr>a_id = 7, a_fields = ()\<rparr>)] \<and>
   contains (addresses (snd (create_address demo_address (init :: (unit, unit) store))))
     (ac_id demo_address) \<and>
   fst (create_address demo_address (snd (create_address demo_address (init :: (unit, unit) store)))) =
     Inl (HTTPException 400 ''Address with this ID already exists'')"
  using create_address_uses_payload_id [of "init :: (unit, unit) store" demo_address "fresh 1" "()"]
    create_address_uses_payload_id
      [of "snd (create_address demo_address (init :: (unit, unit) store))" demo_address "fresh 1" "()"]
  by (simp add: eval_simps demo_address_def)

text \<open>
  The id of a new address is the payload's, and a second creation with the same
  payload is rejected.
\<close>

theorem create_address_duplicate_id_counterexample:
  "ac_id demo_address = 7 \<and>
   map fst (addresses (snd (create_address demo_address (init :: (unit, unit) store)))) = [7] \<and>
   create_address demo_address (snd (create_address demo_address (init :: (unit, unit) store))) =
     (Inl (HTTPException 400 ''Address with this ID already exists''),
      snd (create_address demo_address init))"
  by (simp add: eval_simps demo_address_def)

section \<open>The ledger and the number of enrolled registrations\<close>

lemma count_enrolled_update_new:
  "map_of regs k = None \<Longrightarrow>
     count_enrolled cid (AList.update k v regs) =
       count_enrolled cid regs + (if course_id v = cid \<and> status v = ''enrolled'' then 1 else 0)"
  by (induction regs) (auto simp: count_enrolled_def split: if_splits)

lemma count_enrolled_update_old:
  "map_of regs k = Some v0 \<Longrightarrow>
     int (count_enrolled cid (AList.update k v regs)) =
       int (count_enrolled cid regs)
       - (if course_id v0 = cid \<and> status v0 = ''enrolled'' then 1 else 0)
       + (if course_id v = cid \<and> status v = ''enrolled'' then 1 else 0)"
  by (induction regs) (auto simp: count_enrolled_def split: if_splits)

lemma ledger_gap_create_registration:
  assumes k: "keys_ok s" and f: "map_of (registrations s) (gen_id g) = None"
  shows "ledger_gap (snd (create_registration g reg s)) cid = ledger_gap s cid"
proof (cases "contains (persons s) (person_id reg)")
  case False
  then show ?thesis by (simp add: create_registration_def)
next
  case True
  show ?thesis
  proof (cases "map_of (courses s) (course_id reg)")
    case None
    then show ?thesis by (simp add: create_registration_def)
  next
    case (Some c)
    have cid: "c_id c = course_id reg" using k Some by (rule keys_ok_course_id)
    show ?thesis
      using True Some cid f
      by (auto simp: create_registration_def ledger_gap_def Let_def update_conv'
            count_enrolled_update_new)
  qed
qed

lemma ledger_gap_plain:
  assumes k: "keys_ok s" and ro: "refs_ok s"
    and r: "map_of (registrations s) rid = Some r"
    and st: "overlay (u_status upd) (status r) = Some st"
    and same: "status r = ''enrolled'' \<longleftrightarrow> st = ''enrolled''"
  shows "ledger_gap (snd (update_registration rid upd s)) cid = ledger_gap s cid"
proof -
  obtain c where c: "map_of (courses s) (course_id r) = Some c"
    using ro r refs_ok_course by blast
  have n: "\<not> (status r = ''enrolled'' \<and> st = ''dropped'')" using same by auto
  have "int (count_enrolled cid (AList.update rid (r\<lparr>status := st\<rparr>) (registrations s))) =
        int (count_enrolled cid (registrations s))"
    using count_enrolled_update_old [OF r, of cid "r\<lparr>status := st\<rparr>"] same by auto
  then show ?thesis
    using update_registration_plain [OF k r st c n] by (simp add: ledger_gap_def)
qed

lemma ledger_gap_drop:
  assumes k: "keys_ok s" and ro: "refs_ok s"
    and r: "map_of (registrations s) rid = Some r"
    and e: "status r = ''enrolled''" and u: "u_status upd = Given ''dropped''"
  shows "ledger_gap (snd (update_registration rid upd s)) cid = ledger_gap s cid"
proof -
  obtain c where c: "map_of (courses s) (course_id r) = Some c"
    using ro r refs_ok_course by blast
  show ?thesis
  proof (cases "first_waitlisted (course_id r) (registrations s)")
    case None
    have "int (count_enrolled cid (AList.update rid (r\<lparr>status := ''dropped''\<rparr>) (registrations s))) =
          int (count_enrolled cid (registrations s)) - (if course_id r = cid then 1 else 0)"
      using count_enrolled_update_old [OF r, of cid "r\<lparr>status := ''dropped''\<rparr>"] e by auto
    then show ?thesis
      using update_registration_drop_no_waitlist [OF k r e u c None] c
      by (auto simp: ledger_gap_def update_conv')
  next
    case (Some kw)
    obtain j w where fw: "first_waitlisted (course_id r) (registrations s) = Some (j, w)"
      using Some by (cases kw) simp
    then have mem: "(j, w) \<in> set (registrations s)" and cw: "course_id w = course_id r"
      and sw: "status w = ''waitlisted''"
      by (auto dest: first_waitlisted_SomeD)
    have mw: "map_of (registrations s) j = Some w"
      using mem k by (simp add: keys_ok_def)
    have ne: "j \<noteq> rid" using mw r e sw by auto
    let ?regs1 = "AList.update j (w\<lparr>status := ''enrolled''\<rparr>) (registrations s)"
    have c1: "int (count_enrolled cid ?regs1) =
          int (count_enrolled cid (registrations s)) + (if course_id r = cid then 1 else 0)"
      using count_enrolled_update_old [OF mw, of cid "w\<lparr>status := ''enrolled''\<rparr>"] sw cw by auto
    have r1: "map_of ?regs1 rid = Some r" using r ne by (simp add: update_conv')
    have "int (count_enrolled cid (AList.update rid (r\<lparr>status := ''dropped''\<rparr>) ?regs1)) =
          int (count_enrolled cid ?regs1) - (if course_id r = cid then 1 else 0)"
      using count_enrolled_update_old [OF r1, of cid "r\<lparr>status := ''dropped''\<rparr>"] e by auto
    with c1 have "int (count_enrolled cid (AList.update rid (r\<lparr>status := ''dropped''\<rparr>) ?regs1)) =
          int (count_enrolled cid (registrations s))"
      by simp
    then show ?thesis
      using update_registration_drop_promote [OF k r e u c fw]
      by (simp add: ledger_gap_def)
  qed
qed

lemma ledger_exact_gap:
  assumes "keys_ok s"
  shows "ledger_exact s \<longleftrightarrow> (\<forall>k. ledger_gap s k = None \<or> ledger_gap s k = Some 0)"
proof
  assume e: "ledger_exact s"
  show "\<forall>k. ledger_gap s k = None \<or> ledger_gap s k = Some 0"
  proof
    fix k
    show "ledger_gap s k = None \<or> ledger_gap s k = Some 0"
    proof (cases "map_of (courses s) k")
      case None
      then show ?thesis by (simp add: ledger_gap_def)
    next
      case (Some c)
      then have "(k, c) \<in> set (courses s)" by (rule map_of_SomeD)
      then have "enrollment c = int (count_enrolled k (registrations s))"
        using e by (auto simp: ledger_exact_def)
      then show ?thesis using Some by (simp add: ledger_gap_def)
    qed
  qed
next
  assume g: "\<forall>k. ledger_gap s k = None \<or> ledger_gap s k = Some 0"
  have d: "distinct (map fst (courses s))" using assms by (simp add: keys_ok_def)
  show "ledger_exact s"
    unfolding ledger_exact_def
  proof (clarify)
    fix k c
    assume "(k, c) \<in> set (courses s)"
    then have "map_of (courses s) k = Some c" using d by simp
    then show "enrollment c = int (count_enrolled k (registrations s))"
      using g [rule_format, of k] by (simp add: ledger_gap_def)
  qed
qed

lemma count_enrolled_unknown_course:
  assumes "refs_ok s" and "\<not> contains (courses s) k"
  shows "count_enrolled k (registrations s) = 0"
proof -
  have "\<forall>(j, r) \<in> set (registrations s). course_id r \<noteq> k"
    using assms by (auto simp: refs_ok_def)
  then show ?thesis
    by (auto simp: count_enrolled_def filter_empty_conv)
qed

lemma ledger_gap_create_course:
  assumes "refs_ok s" and "enrollment c = 0" and "\<not> contains (courses s) (gen_id g)"
  shows "ledger_gap (snd (create_course g c s)) k =
           (if k = gen_id g then Some 0 else ledger_gap s k)"
  using count_enrolled_unknown_course [OF assms(1,3)] assms(2)
  by (simp add: create_course_def ledger_gap_def Let_def update_conv')

lemma ledger_gap_update_course:
  assumes "case u_enrollment u of Given v \<Rightarrow> False | _ \<Rightarrow> True"
  shows "ledger_gap (snd (update_course cid u now s)) k = ledger_gap s k"
proof (cases "map_of (courses s) cid")
  case None
  then show ?thesis by (simp add: update_course_def)
next
  case (Some stored)
  show ?thesis
  proof (cases "merge_course stored u now")
    case None
    then show ?thesis using Some by (simp add: update_course_def)
  next
    case c: (Some c)
    have "overlay (u_enrollment u) (enrollment stored) = Some (enrollment c)"
      using c by (rule merge_course_enrollment)
    then have "enrollment c = enrollment stored"
      using assms by (cases "u_enrollment u") auto
    then show ?thesis
      using Some c by (auto simp: update_course_def ledger_gap_def update_conv')
  qed
qed

lemma ledger_gap_update_registration_safe:
  assumes k: "keys_ok s" and ro: "refs_ok s" and safe: "ledger_safe s (PatchRegistration rid u)"
  shows "ledger_gap (snd (update_registration rid u s)) cid = ledger_gap s cid"
proof (cases "map_of (registrations s) rid")
  case None
  then show ?thesis by (simp add: update_registration_def)
next
  case (Some r)
  show ?thesis
  proof (cases "overlay (u_status u) (status r)")
    case None
    then show ?thesis using Some by (simp add: update_registration_def)
  next
    case st: (Some st)
    show ?thesis
    proof (cases "status r = ''enrolled'' \<and> st = ''dropped''")
      case True
      then have "u_status u = Given ''dropped''"
        using st by (cases "u_status u") auto
      then show ?thesis using ledger_gap_drop [OF k ro Some] True by simp
    next
      case False
      then have "status r = ''enrolled'' \<longleftrightarrow> st = ''enrolled''"
        using safe Some st by auto
      then show ?thesis using ledger_gap_plain [OF k ro Some st] by simp
    qed
  qed
qed

lemma ledger_exact_handle:
  assumes k: "keys_ok s" and ro: "refs_ok s" and ex: "ledger_exact s" and safe: "ledger_safe s r"
  shows "ledger_exact (handle r s)"
proof -
  have k': "keys_ok (handle r s)" using k by (rule keys_ok_handle)
  have g: "\<And>j. ledger_gap s j = None \<or> ledger_gap s j = Some 0"
    using ex ledger_exact_gap [OF k] by simp
  have "\<And>j. ledger_gap (handle r s) j = None \<or> ledger_gap (handle r s) j = Some 0"
  proof (cases r)
    case (PostAddress a)
    fix j show "ledger_gap (handle r s) j = None \<or> ledger_gap (handle r s) j = Some 0"
      using g [of j] PostAddress by (simp add: create_address_def ledger_gap_def Let_def)
  next
    case (PatchAddress a u)
    fix j show "ledger_gap (handle r s) j = None \<or> ledger_gap (handle r s) j = Some 0"
      using g [of j] PatchAddress
      by (simp add: update_address_def ledger_gap_def Let_def split: option.splits)
  next
    case (PostPerson d p)
    fix j show "ledger_gap (handle r s) j = None \<or> ledger_gap (handle r s) j = Some 0"
      using g [of j] PostPerson by (simp add: create_person_def ledger_gap_def Let_def)
  next
    case (PatchPerson a u)
    fix j show "ledger_gap (handle r s) j = None \<or> ledger_gap (handle r s) j = Some 0"
      using g [of j] PatchPerson
      by (simp add: update_person_def ledger_gap_def Let_def split: option.splits)
  next
    case (PostCourse d c)
    fix j show "ledger_gap (handle r s) j = None \<or> ledger_gap (handle r s) j = Some 0"
      using g [of j] PostCourse safe ledger_gap_create_course [OF ro, of c d j] by simp
  next
    case (PatchCourse a u now)
    fix j show "ledger_gap (handle r s) j = None \<or> ledger_gap (handle r s) j = Some 0"
      using g [of j] PatchCourse safe ledger_gap_update_course [of u a now s j] by simp
  next
    case (PostRegistration d reg)
    fix j show "ledger_gap (handle r s) j = None \<or> ledger_gap (handle r s) j = Some 0"
      using g [of j] PostRegistration safe ledger_gap_create_registration [OF k, of d reg j]
      by (simp add: contains_def)
  next
    case (PatchRegistration a u)
    fix j show "ledger_gap (handle r s) j = None \<or> ledger_gap (handle r s) j = Some 0"
      using g [of j] PatchRegistration safe ledger_gap_update_registration_safe [OF k ro, of a u j]
      by simp
  qed
  then show ?thesis using ledger_exact_gap [OF k'] by simp
qed

lemma ledger_exact_run:
  assumes "keys_ok s" and "refs_ok s" and "ledger_exact s" and "all_safe rs s"
  shows "ledger_exact (run rs s)"
  using assms
proof (induction rs arbitrary: s)
  case Nil
  then show ?case by simp
next
  case (Cons r rs)
  have "keys_ok (handle r s)" "refs_ok (handle r s)" "ledger_exact (handle r s)"
    using Cons.prems by (simp_all add: keys_ok_handle refs_ok_handle ledger_exact_handle)
  then show ?case using Cons by simp
qed

text \<open>
  C1 (amended).  In every store reached from the empty dictionaries by requests that
  leave the ledger to the registration workflow (courses created with
  \<^verbatim>\<open>enrollment\<close> 0 under unused ids, no \<^verbatim>\<open>enrollment\<close> value in course updates,
  registrations created under unused ids, status updates that are \<^verbatim>\<open>enrolled\<close> to
  \<^verbatim>\<open>dropped\<close> or keep whether the registration is \<^verbatim>\<open>enrolled\<close>; any person and
  address requests), each course's \<^verbatim>\<open>enrollment\<close> equals the number of stored
  registrations of that course whose status is \<^verbatim>\<open>enrolled\<close>.
\<close>

theorem enrollment_counts_enrolled:
  assumes "all_safe rs init"
  shows "\<forall>(k, c) \<in> set (courses (run rs init)).
           enrollment c = int (count_enrolled k (registrations (run rs init)))"
proof -
  have "keys_ok (init :: ('a, 'b) store)" "refs_ok (init :: ('a, 'b) store)"
    "ledger_exact (init :: ('a, 'b) store)"
    by (simp_all add: init_def keys_ok_def refs_ok_def ledger_exact_def)
  from ledger_exact_run [OF this assms] show ?thesis by (simp add: ledger_exact_def)
qed

theorem enrollment_counts_enrolled_witness:
  "all_safe demo_session init \<and>
   map (enrollment \<circ> snd) (courses (run demo_session init)) = [1] \<and>
   count_enrolled 2 (registrations (run demo_session init)) = 1 \<and>
   map (\<lambda>(k, r). (k, status r)) (registrations (run demo_session init)) =
     [(3, ''dropped''), (4, ''enrolled'')]"
proof -
  have a: "all_safe demo_session init"
    by (simp add: demo_session_def eval_simps)
  have b: "map (\<lambda>(k, r). (k, status r)) (registrations (run demo_session init)) =
     [(3, ''dropped''), (4, ''enrolled'')]"
    by (simp add: demo_session_def eval_simps)
  have c: "map fst (courses (run demo_session init)) = [2]"
    by (simp add: demo_session_def eval_simps)
  have d: "count_enrolled 2 (registrations (run demo_session init)) = 1"
    by (simp add: demo_session_def eval_simps count_enrolled_def)
  from enrollment_counts_enrolled [OF a] c d
  have "map (enrollment \<circ> snd) (courses (run demo_session init)) = [1]"
    by (cases "courses (run demo_session init)") auto
  with a b d show ?thesis by simp
qed

text \<open>
  Without the restriction the equality is not an invariant of the reachable stores: the
  creation payload of a course carries its \<^verbatim>\<open>enrollment\<close>, so a course exists with
  enrollment 143 and no registration at all.
\<close>

theorem course_created_with_enrollment_counterexample:
  "reachable (demo_store 160 143 []) \<and>
   map (enrollment \<circ> snd) (courses (demo_store 160 143 [])) = [143] \<and>
   count_enrolled 2 (registrations (demo_store 160 143 [])) = 0"
proof -
  have "reachable (demo_store 160 143 [])"
    unfolding demo_store_def by (rule reachable_run) (rule reachable_init)
  moreover have "map (enrollment \<circ> snd) (courses (demo_store 160 143 [])) = [143]"
    by (simp add: eval_simps)
  moreover have "count_enrolled 2 (registrations (demo_store 160 143 [])) = 0"
    by (simp add: eval_simps count_enrolled_def)
  ultimately show ?thesis by blast
qed

end
